theory Spec2Isabelle
  imports Main "HOL-Library.Sublist"
begin

section \<open>Data model of \<^verbatim>\<open>useColumnLineageDataForAssets.tsx\<close>\<close>

text \<open>
  The hook keeps a cache \<^verbatim>\<open>loaded\<close> of decoded column lineage per asset, computes the
  requested asset keys that are still \<^verbatim>\<open>missing\<close>, fetches them with one GraphQL query
  at a time (guarded by the ref \<^verbatim>\<open>fetching\<close>) and merges the decoded response into the
  cache. The TypeScript types become records; a JavaScript object used as a dictionary
  becomes a map; a property that may be \<^verbatim>\<open>undefined\<close> or \<^verbatim>\<open>null\<close> becomes an option.
\<close>

text \<open>\<^verbatim>\<open>AssetKeyInput = {path: string[]}\<close>. The record is polymorphic in the path because
  the decoder builds asset keys whose path is \<^verbatim>\<open>upstream_asset_key[0]\<close>, which is
  \<^verbatim>\<open>undefined\<close> at run time when the outer array is empty (the \<^verbatim>\<open>!\<close> of the source is
  erased by the compiler).\<close>

record 'p AssetKey =
  path :: 'p

type_synonym AssetKeyInput = "string list AssetKey"

text \<open>One element of \<^verbatim>\<open>AssetColumnLineageServer[column]\<close>.\<close>

record ServerUpstream =
  upstream_asset_key :: "string list list"
  upstream_column_name :: string

text \<open>\<^verbatim>\<open>AssetColumnLineageServer\<close>, the parsed lineage payload, as the entries that
  \<^verbatim>\<open>Object.entries\<close> enumerates.\<close>

type_synonym AssetColumnLineageServer = "(string \<times> ServerUpstream list) list"

record LocalUpstream =
  assetKey :: "string list option AssetKey"
  columnName :: string

text \<open>\<^verbatim>\<open>AssetColumnLineageLocalColumn\<close>.\<close>

record AssetColumnLineageLocalColumn =
  name :: string
  type :: "string option"
  description :: "string option"
  asOf :: "string option"
  upstream :: "LocalUpstream list"

type_synonym AssetColumnLineageLocal = "string \<rightharpoonup> AssetColumnLineageLocalColumn"

text \<open>\<^verbatim>\<open>AssetColumnLineages\<close>: \<open>None\<close> is an absent (or \<^verbatim>\<open>undefined\<close>) entry.\<close>

type_synonym AssetColumnLineages = "string \<rightharpoonup> AssetColumnLineageLocal"

text \<open>The shape selected by \<^verbatim>\<open>ASSET_COLUMN_LINEAGE_QUERY\<close>: a table column, a metadata
  entry (with its \<^verbatim>\<open>__typename\<close> and \<^verbatim>\<open>label\<close>; a table schema entry carries columns, a
  JSON entry carries \<^verbatim>\<open>jsonString\<close>), a materialization and an asset node.\<close>

record TableColumn =
  col_name :: string
  col_type :: string
  col_description :: "string option"

datatype MetadataEntry =
    TableSchemaMetadataEntry string "TableColumn list"
  | JsonMetadataEntry string string
  | OtherMetadataEntry string string

record Materialization =
  timestamp :: string
  metadataEntries :: "MetadataEntry list"

record AssetNode =
  id :: string
  node_assetKey :: AssetKeyInput
  node_metadataEntries :: "MetadataEntry list"
  assetMaterializations :: "Materialization list"

text \<open>What the source can throw: \<^verbatim>\<open>JSON.parse\<close> raises a \<^verbatim>\<open>SyntaxError\<close>, and
  \<^verbatim>\<open>client.query\<close> rejects with a network error.\<close>

datatype error = SyntaxError | NetworkError

text \<open>
  The functions the file imports and calls, whose code is elsewhere, are parameters:
  \<^verbatim>\<open>toGraphId\<close>, \<^verbatim>\<open>isCanonicalColumnLineageEntry\<close>, \<^verbatim>\<open>buildConsolidatedColumnSchema\<close>
  (reduced to what the caller reads from its result: the columns of
  \<^verbatim>\<open>tableSchema.schema\<close>, or \<open>None\<close> when \<^verbatim>\<open>tableSchema?.schema\<close> is falsy) and
  \<^verbatim>\<open>JSON.parse\<close> at the type the source casts its result to (\<open>None\<close> when it throws).
\<close>

record collaborators =
  toGraphId :: "AssetKeyInput \<Rightarrow> string"
  isCanonicalColumnLineageEntry :: "MetadataEntry \<Rightarrow> bool"
  buildConsolidatedColumnSchema :: "Materialization option \<Rightarrow> AssetNode \<Rightarrow> TableColumn list option"
  JSON_parse :: "string \<Rightarrow> AssetColumnLineageServer option"

section \<open>JavaScript helpers\<close>

text \<open>\<^verbatim>\<open>Object.fromEntries\<close>: a later entry overwrites an earlier one with the same key.\<close>

fun addEntries :: "(string \<rightharpoonup> 'v) \<Rightarrow> (string \<times> 'v) list \<Rightarrow> (string \<rightharpoonup> 'v)" where
  "addEntries obj [] = obj"
| "addEntries obj ((k, v) # es) = addEntries (obj(k \<mapsto> v)) es"

definition fromEntries :: "(string \<times> 'v) list \<Rightarrow> (string \<rightharpoonup> 'v)" where
  "fromEntries es = addEntries Map.empty es"

text \<open>\<^verbatim>\<open>xs[0]\<close>: \<^verbatim>\<open>undefined\<close> on an empty array, no exception.\<close>

definition index0 :: "'a list \<Rightarrow> 'a option" where
  "index0 xs = (case xs of [] \<Rightarrow> None | x # _ \<Rightarrow> Some x)"

text \<open>\<^verbatim>\<open>v || null\<close> on an optional string: the empty string is falsy too.\<close>

definition or_null :: "string option \<Rightarrow> string option" where
  "or_null v = (case v of None \<Rightarrow> None | Some s \<Rightarrow> if s = [] then None else Some s)"

text \<open>\<^verbatim>\<open>entry.jsonString\<close>: only a JSON metadata entry has the property.\<close>

fun jsonString :: "MetadataEntry \<Rightarrow> string option" where
  "jsonString (JsonMetadataEntry l s) = Some s"
| "jsonString (TableSchemaMetadataEntry l cs) = None"
| "jsonString (OtherMetadataEntry t l) = None"

section \<open>The decoder \<^verbatim>\<open>getColumnLineage\<close>\<close>

text \<open>The object built for one entry \<^verbatim>\<open>[column, m]\<close> of the parsed payload (lines 68-79).\<close>

definition localUpstream :: "ServerUpstream \<Rightarrow> LocalUpstream" where
  "localUpstream u =
     \<lparr>assetKey = \<lparr>path = index0 (upstream_asset_key u)\<rparr>,
      columnName = upstream_column_name u\<rparr>"

definition localColumn ::
  "(string \<rightharpoonup> TableColumn) \<Rightarrow> Materialization option \<Rightarrow> string \<times> ServerUpstream list
     \<Rightarrow> string \<times> AssetColumnLineageLocalColumn" where
  "localColumn schemaParsed materialization e =
     (case e of (column, m) \<Rightarrow>
        (column,
         \<lparr>name = column,
          type = or_null (map_option col_type (schemaParsed column)),
          description = or_null (Option.bind (schemaParsed column) col_description),
          asOf = map_option timestamp materialization,
          upstream = map localUpstream m\<rparr>))"

text \<open>Lines 63-65: the consolidated schema's columns by name.\<close>

definition schemaParsed :: "TableColumn list option \<Rightarrow> (string \<rightharpoonup> TableColumn)" where
  "schemaParsed tableSchema =
     (case tableSchema of
        Some cols \<Rightarrow> fromEntries (map (\<lambda>col. (col_name col, col)) cols)
      | None \<Rightarrow> Map.empty)"

text \<open>Lines 45-82. \<^verbatim>\<open>JSON.parse(undefined)\<close> throws a \<^verbatim>\<open>SyntaxError\<close> as well.\<close>

definition getColumnLineage :: "collaborators \<Rightarrow> AssetNode \<Rightarrow> error + AssetColumnLineageLocal" where
  "getColumnLineage env asset =
     (let materialization = index0 (assetMaterializations asset);
          lineageMetadata =
            (case materialization of
               None \<Rightarrow> None
             | Some mat \<Rightarrow> find (isCanonicalColumnLineageEntry env) (metadataEntries mat))
      in case lineageMetadata of
           None \<Rightarrow> Inr Map.empty
         | Some entry \<Rightarrow>
             (let tableSchema = buildConsolidatedColumnSchema env materialization asset
              in case Option.bind (jsonString entry) (JSON_parse env) of
                   None \<Rightarrow> Inl SyntaxError
                 | Some lineageParsed \<Rightarrow>
                     Inr (fromEntries
                            (map (localColumn (schemaParsed tableSchema) materialization)
                               lineageParsed))))"

section \<open>The cache: \<^verbatim>\<open>missing\<close> and the \<^verbatim>\<open>setLoaded\<close> update\<close>

text \<open>Line 89: \<^verbatim>\<open>assetKeys.filter((a) => !loaded[toGraphId(a)])\<close>. Every value the hook
  stores is an object, which is truthy, so the test is absence.\<close>

definition missing :: "collaborators \<Rightarrow> AssetKeyInput list \<Rightarrow> AssetColumnLineages \<Rightarrow> AssetKeyInput list" where
  "missing env assetKeys loaded = filter (\<lambda>a. loaded (toGraphId env a) = None) assetKeys"

text \<open>Line 105: the entries \<^verbatim>\<open>[toGraphId(n.assetKey), getColumnLineage(n)]\<close> of the response,
  built in order; the first decoder exception leaves the whole \<^verbatim>\<open>map\<close>.\<close>

fun decodeEntries ::
  "collaborators \<Rightarrow> AssetNode list \<Rightarrow> error + (string \<times> AssetColumnLineageLocal) list" where
  "decodeEntries env [] = Inr []"
| "decodeEntries env (n # ns) =
     (case getColumnLineage env n of
        Inl e \<Rightarrow> Inl e
      | Inr l \<Rightarrow>
          (case decodeEntries env ns of
             Inl e \<Rightarrow> Inl e
           | Inr es \<Rightarrow> Inr ((toGraphId env (node_assetKey n), l) # es)))"

text \<open>Lines 102-107: \<^verbatim>\<open>(loaded) => ({...loaded, ...Object.fromEntries(entries)})\<close>. The
  spread copies into a fresh object; the previous cache value is not written to.\<close>

definition setLoaded_updater ::
  "AssetColumnLineages \<Rightarrow> (string \<times> AssetColumnLineageLocal) list \<Rightarrow> AssetColumnLineages" where
  "setLoaded_updater loaded entries = loaded ++ fromEntries entries"

section \<open>The hook as a state machine\<close>

text \<open>
  The state of one hook instance: the React state \<^verbatim>\<open>loaded\<close>, the ref \<^verbatim>\<open>fetching\<close>, and
  the environment's side: the \<^verbatim>\<open>assetKeys\<close> variables of the queries that are sent and
  not yet settled (\<open>in_flight\<close>), of all queries ever sent (\<open>sent\<close>), and the exceptions
  nothing in the file catches (\<open>uncaught\<close>).
\<close>

record hook =
  loaded :: AssetColumnLineages
  fetching :: bool
  in_flight :: "AssetKeyInput list list"
  sent :: "AssetKeyInput list list"
  uncaught :: "error list"

definition init :: hook where
  "init = \<lparr>loaded = Map.empty, fetching = False, in_flight = [], sent = [], uncaught = []\<rparr>"

text \<open>Lines 93-112, up to the \<^verbatim>\<open>await\<close>: the effect that runs after a render with the
  given \<^verbatim>\<open>assetKeys\<close>.\<close>

definition effect :: "collaborators \<Rightarrow> AssetKeyInput list \<Rightarrow> hook \<Rightarrow> hook" where
  "effect env assetKeys s =
     (let m = missing env assetKeys (loaded s)
      in if \<not> fetching s \<and> m \<noteq> []
         then s\<lparr>fetching := True, in_flight := in_flight s @ [m], sent := sent s @ [m]\<rparr>
         else s)"

definition settle :: "nat \<Rightarrow> 'a list \<Rightarrow> 'a list" where
  "settle i qs = take i qs @ drop (Suc i) qs"

text \<open>Lines 100-107: the continuation of \<^verbatim>\<open>fetch\<close> when query \<open>i\<close> resolves with the given
  \<^verbatim>\<open>data.assetNodes\<close>. An exception of the updater leaves the state \<^verbatim>\<open>loaded\<close> as it was.
  React rethrows it while rendering and unmounts the component, so the real hook takes no
  further step; the state machine below lets it go on, which only adds runs to those the
  properties quantify over.\<close>

definition fetch_resolved :: "collaborators \<Rightarrow> nat \<Rightarrow> AssetNode list \<Rightarrow> hook \<Rightarrow> hook" where
  "fetch_resolved env i assetNodes s =
     (let s1 = s\<lparr>fetching := False, in_flight := settle i (in_flight s)\<rparr>
      in case decodeEntries env assetNodes of
           Inl e \<Rightarrow> s1\<lparr>uncaught := uncaught s1 @ [e]\<rparr>
         | Inr entries \<Rightarrow> s1\<lparr>loaded := setLoaded_updater (loaded s1) entries\<rparr>)"

text \<open>When query \<open>i\<close> rejects, the \<^verbatim>\<open>await\<close> of line 96 throws: lines 100-107 do not run,
  and the promise of \<^verbatim>\<open>fetch\<close>, which line 110 discards, rejects.\<close>

definition fetch_rejected :: "nat \<Rightarrow> hook \<Rightarrow> hook" where
  "fetch_rejected i s =
     s\<lparr>in_flight := settle i (in_flight s), uncaught := uncaught s @ [NetworkError]\<rparr>"

datatype event =
    Effect "AssetKeyInput list"
  | Resolved nat "AssetNode list"
  | Rejected nat

text \<open>A query can only settle while it is in flight.\<close>

fun step :: "collaborators \<Rightarrow> hook \<Rightarrow> event \<Rightarrow> hook option" where
  "step env s (Effect assetKeys) = Some (effect env assetKeys s)"
| "step env s (Resolved i assetNodes) =
     (if i < length (in_flight s) then Some (fetch_resolved env i assetNodes s) else None)"
| "step env s (Rejected i) =
     (if i < length (in_flight s) then Some (fetch_rejected i s) else None)"

fun run :: "collaborators \<Rightarrow> hook \<Rightarrow> event list \<Rightarrow> hook option" where
  "run env s [] = Some s"
| "run env s (ev # evs) = (case step env s ev of None \<Rightarrow> None | Some s' \<Rightarrow> run env s' evs)"

text \<open>The guard: at most one query is in flight, and only while \<^verbatim>\<open>fetching.current\<close> is
  set.\<close>

definition guard_inv :: "hook \<Rightarrow> bool" where
  "guard_inv s = (length (in_flight s) \<le> 1 \<and> (in_flight s \<noteq> [] \<longrightarrow> fetching s))"

section \<open>Example inputs\<close>

text \<open>
  One instance of the collaborators and a few responses, on which the theorems below are
  evaluated. The identifier joins the path segments, the lineage entry is the JSON entry
  labelled \<^verbatim>\<open>dagster/column_lineage\<close>, the schema is the first table schema entry of the
  materialization or else of the definition, and the parser knows three well-formed texts.
\<close>

definition example_text :: string where
  \<open>example_text =
     ''{"a": [{"upstream_asset_key": [["t1","col_x"]], "upstream_column_name": "x"}]}''\<close>

definition example_payload :: AssetColumnLineageServer where
  "example_payload =
     [(''a'', [\<lparr>upstream_asset_key = [[''t1'', ''col_x'']], upstream_column_name = ''x''\<rparr>])]"

definition unwrapped_text :: string where
  \<open>unwrapped_text = ''{"a": [{"upstream_asset_key": [], "upstream_column_name": "x"}]}''\<close>

definition unwrapped_payload :: AssetColumnLineageServer where
  "unwrapped_payload = [(''a'', [\<lparr>upstream_asset_key = [], upstream_column_name = ''x''\<rparr>])]"

definition malformed_text :: string where
  \<open>malformed_text = ''{"a": [''\<close>

definition example_parse :: "string \<Rightarrow> AssetColumnLineageServer option" where
  "example_parse s =
     (if s = example_text then Some example_payload
      else if s = unwrapped_text then Some unwrapped_payload
      else if s = ''{}'' then Some []
      else None)"

fun example_schema :: "MetadataEntry list \<Rightarrow> TableColumn list option" where
  "example_schema [] = None"
| "example_schema (TableSchemaMetadataEntry l cols # es) = Some cols"
| "example_schema (e # es) = example_schema es"

fun example_isLineage :: "MetadataEntry \<Rightarrow> bool" where
  "example_isLineage (JsonMetadataEntry l t) = (l = ''dagster/column_lineage'')"
| "example_isLineage e = False"

definition example_env :: collaborators where
  "example_env =
     \<lparr>toGraphId = (\<lambda>k. concat (map (\<lambda>seg. CHR ''/'' # seg) (path k))),
      isCanonicalColumnLineageEntry = example_isLineage,
      buildConsolidatedColumnSchema =
        (\<lambda>mat n. example_schema
           ((case mat of None \<Rightarrow> [] | Some m \<Rightarrow> metadataEntries m) @ node_metadataEntries n)),
      JSON_parse = example_parse\<rparr>"

definition key_t1 :: AssetKeyInput where
  "key_t1 = \<lparr>path = [''t1'']\<rparr>"

definition key_t2 :: AssetKeyInput where
  "key_t2 = \<lparr>path = [''t2'']\<rparr>"

definition key_t3 :: AssetKeyInput where
  "key_t3 = \<lparr>path = [''t3'']\<rparr>"

definition example_columns :: "TableColumn list" where
  "example_columns =
     [\<lparr>col_name = ''a'', col_type = ''INT'', col_description = None\<rparr>,
      \<lparr>col_name = ''b'', col_type = ''TEXT'', col_description = Some ''not in the lineage''\<rparr>]"

text \<open>A materialization whose only metadata entry is a lineage entry with the given text.\<close>

definition lineage_entry :: "string \<Rightarrow> MetadataEntry" where
  "lineage_entry text = JsonMetadataEntry ''dagster/column_lineage'' text"

definition materialized :: "string \<Rightarrow> string \<Rightarrow> Materialization" where
  "materialized ts text = \<lparr>timestamp = ts, metadataEntries = [lineage_entry text]\<rparr>"

text \<open>An asset without materialization, one with the lineage payload of the specification's
  example, one whose payload does not parse, and one whose upstream key has an empty outer
  array.\<close>

definition node_plain :: AssetNode where
  "node_plain =
     \<lparr>id = ''1'', node_assetKey = key_t1, node_metadataEntries = [], assetMaterializations = []\<rparr>"

definition node_lineage :: AssetNode where
  "node_lineage =
     \<lparr>id = ''2'', node_assetKey = key_t2,
      node_metadataEntries = [TableSchemaMetadataEntry ''dagster/column_schema'' example_columns],
      assetMaterializations = [materialized ''1700000000000'' example_text]\<rparr>"

definition node_malformed :: AssetNode where
  "node_malformed =
     \<lparr>id = ''3'', node_assetKey = key_t3, node_metadataEntries = [],
      assetMaterializations = [materialized ''1700000000001'' malformed_text]\<rparr>"

definition node_unwrapped :: AssetNode where
  "node_unwrapped =
     \<lparr>id = ''4'', node_assetKey = key_t3, node_metadataEntries = [],
      assetMaterializations = [materialized ''1700000000002'' unwrapped_text]\<rparr>"

text \<open>What the decoder returns for \<open>node_lineage\<close> and for \<open>node_unwrapped\<close>.\<close>

definition example_local :: AssetColumnLineageLocal where
  "example_local =
     [''a'' \<mapsto>
      \<lparr>name = ''a'', type = Some ''INT'', description = None, asOf = Some ''1700000000000'',
       upstream = [\<lparr>assetKey = \<lparr>path = Some [''t1'', ''col_x'']\<rparr>, columnName = ''x''\<rparr>]\<rparr>]"

definition unwrapped_local :: AssetColumnLineageLocal where
  "unwrapped_local =
     [''a'' \<mapsto>
      \<lparr>name = ''a'', type = None, description = None, asOf = Some ''1700000000002'',
       upstream = [\<lparr>assetKey = \<lparr>path = None\<rparr>, columnName = ''x''\<rparr>]\<rparr>]"

section \<open>Properties of the helpers\<close>

lemma addEntries_map_of: "addEntries obj es = obj ++ map_of (rev es)"
proof (induction obj es rule: addEntries.induct)
  case (1 obj)
  then show ?case by simp
next
  case (2 obj k v es)
  have "addEntries obj ((k, v) # es) = addEntries (obj(k \<mapsto> v)) es"
    by simp
  also have "\<dots> = obj(k \<mapsto> v) ++ map_of (rev es)"
    by (rule 2)
  also have "\<dots> = obj ++ map_of (rev ((k, v) # es))"
    by (rule ext) (simp add: map_add_def split: option.split)
  finally show ?case .
qed

lemma fromEntries_map_of: "fromEntries es = map_of (rev es)"
  by (simp add: fromEntries_def addEntries_map_of)

lemma dom_fromEntries: "dom (fromEntries es) = fst ` set es"
  by (simp add: fromEntries_map_of dom_map_of_conv_image_fst)

lemma map_of_localColumn:
  "map_of (map (localColumn S M) p) c = map_option (\<lambda>m. snd (localColumn S M (c, m))) (map_of p c)"
  by (induction p) (auto simp: localColumn_def)

lemma fromEntries_localColumn:
  "fromEntries (map (localColumn S M) p) c =
     map_option (\<lambda>m. snd (localColumn S M (c, m))) (map_of (rev p) c)"
  by (simp add: fromEntries_map_of rev_map map_of_localColumn)

lemma dom_fromEntries_localColumn: "dom (fromEntries (map (localColumn S M) p)) = fst ` set p"
proof -
  have "fst \<circ> localColumn S M = fst"
    by (rule ext) (simp add: localColumn_def split: prod.split)
  then show ?thesis
    by (simp add: dom_fromEntries image_comp)
qed

lemma schemaParsed_absent:
  "(\<forall>cols. tableSchema = Some cols \<longrightarrow> column \<notin> col_name ` set cols) \<Longrightarrow>
   schemaParsed tableSchema column = None"
  by (cases tableSchema) (auto simp: schemaParsed_def fromEntries_map_of map_of_eq_None_iff image_image)

section \<open>Properties of the decoder\<close>

lemma getColumnLineage_empty:
  assumes "assetMaterializations n = [] \<or>
      find (isCanonicalColumnLineageEntry env) (metadataEntries (hd (assetMaterializations n))) = None"
  shows "getColumnLineage env n = Inr Map.empty"
  using assms by (cases "assetMaterializations n") (auto simp: getColumnLineage_def index0_def)

lemma getColumnLineage_payload:
  assumes "assetMaterializations n = mat # rest"
    and "find (isCanonicalColumnLineageEntry env) (metadataEntries mat) = Some entry"
    and "jsonString entry = Some text"
    and "JSON_parse env text = Some p"
  shows "getColumnLineage env n =
     Inr (fromEntries (map (localColumn
            (schemaParsed (buildConsolidatedColumnSchema env (Some mat) n)) (Some mat)) p))"
  using assms by (simp add: getColumnLineage_def index0_def Let_def)

lemma getColumnLineage_throws:
  assumes "assetMaterializations n = mat # rest"
    and "find (isCanonicalColumnLineageEntry env) (metadataEntries mat) = Some entry"
    and "Option.bind (jsonString entry) (JSON_parse env) = None"
  shows "getColumnLineage env n = Inl SyntaxError"
  using assms by (simp add: getColumnLineage_def index0_def Let_def)

lemma localColumn_snd:
  "snd (localColumn S M (c, m)) =
     \<lparr>name = c, type = or_null (map_option col_type (S c)),
      description = or_null (Option.bind (S c) col_description),
      asOf = map_option timestamp M, upstream = map localUpstream m\<rparr>"
  by (simp add: localColumn_def)

lemma decoded_column:
  assumes "assetMaterializations n = mat # rest"
    and "find (isCanonicalColumnLineageEntry env) (metadataEntries mat) = Some entry"
    and "jsonString entry = Some text"
    and "JSON_parse env text = Some p"
    and "getColumnLineage env n = Inr decoded"
    and "decoded column = Some col"
  shows "\<exists>m. map_of (rev p) column = Some m \<and>
     col = snd (localColumn (schemaParsed (buildConsolidatedColumnSchema env (Some mat) n)) (Some mat) (column, m))"
proof -
  from getColumnLineage_payload [OF assms(1-4)] assms(5)
  have "decoded = fromEntries (map (localColumn
            (schemaParsed (buildConsolidatedColumnSchema env (Some mat) n)) (Some mat)) p)"
    by simp
  with assms(6) show ?thesis
    by (auto simp: fromEntries_localColumn)
qed

section \<open>Properties of the cache\<close>

lemma setLoaded_updater_apply:
  "setLoaded_updater cache batch k = (case map_of (rev batch) k of None \<Rightarrow> cache k | Some v \<Rightarrow> Some v)"
  by (simp add: setLoaded_updater_def fromEntries_map_of map_add_def)

lemma dom_setLoaded_updater: "dom (setLoaded_updater cache batch) = dom cache \<union> fst ` set batch"
  by (simp add: setLoaded_updater_def dom_fromEntries Un_commute)

lemma dom_foldl_setLoaded_updater: "dom cache \<subseteq> dom (foldl setLoaded_updater cache batches)"
proof (induction batches arbitrary: cache)
  case Nil
  then show ?case by simp
next
  case (Cons b batches)
  have "dom cache \<subseteq> dom (setLoaded_updater cache b)"
    by (simp add: dom_setLoaded_updater)
  also have "\<dots> \<subseteq> dom (foldl setLoaded_updater (setLoaded_updater cache b) batches)"
    by (rule Cons.IH)
  finally show ?case by simp
qed

lemma set_missing: "set (missing env ks c) = {a \<in> set ks. toGraphId env a \<notin> dom c}"
  by (auto simp: missing_def)

section \<open>Properties of the state machine\<close>

lemma loaded_effect [simp]: "loaded (effect env ks s) = loaded s"
  by (simp add: effect_def Let_def)

lemma loaded_fetch_rejected [simp]: "loaded (fetch_rejected i s) = loaded s"
  by (simp add: fetch_rejected_def)

lemma loaded_fetch_resolved:
  "loaded (fetch_resolved env i ns s) =
     (case decodeEntries env ns of Inl e \<Rightarrow> loaded s | Inr es \<Rightarrow> setLoaded_updater (loaded s) es)"
  by (simp add: fetch_resolved_def Let_def split: sum.split)

lemma dom_loaded_step: "step env s ev = Some s' \<Longrightarrow> dom (loaded s) \<subseteq> dom (loaded s')"
proof (cases ev)
  case (Effect ks)
  assume "step env s ev = Some s'"
  with Effect show ?thesis by auto
next
  case (Resolved i ns)
  assume "step env s ev = Some s'"
  with Resolved have s': "s' = fetch_resolved env i ns s"
    by (simp split: if_splits)
  show ?thesis
  proof (cases "decodeEntries env ns")
    case (Inl e)
    with s' show ?thesis by (simp add: loaded_fetch_resolved)
  next
    case (Inr es)
    with s' have "dom (loaded s') = dom (loaded s) \<union> fst ` set es"
      by (simp add: loaded_fetch_resolved dom_setLoaded_updater)
    then show ?thesis by simp
  qed
next
  case (Rejected i)
  assume "step env s ev = Some s'"
  with Rejected show ?thesis by (auto split: if_splits)
qed

lemma dom_loaded_run: "run env s evs = Some s' \<Longrightarrow> dom (loaded s) \<subseteq> dom (loaded s')"
proof (induction evs arbitrary: s)
  case Nil
  then show ?case by simp
next
  case (Cons ev evs)
  then obtain s1 where 1: "step env s ev = Some s1" and 2: "run env s1 evs = Some s'"
    by (auto split: option.splits)
  from dom_loaded_step [OF 1] Cons.IH [OF 2] show ?case by blast
qed

lemma settle_single: "length qs \<le> 1 \<Longrightarrow> i < length qs \<Longrightarrow> settle i qs = []"
  by (cases qs) (simp_all add: settle_def)

lemma guard_inv_init: "guard_inv init"
  by (simp add: guard_inv_def init_def)

lemma guard_inv_step: "guard_inv s \<Longrightarrow> step env s ev = Some s' \<Longrightarrow> guard_inv s'"
proof (cases ev)
  case (Effect ks)
  assume "guard_inv s" "step env s ev = Some s'"
  with Effect show ?thesis
    by (cases "in_flight s") (auto simp: guard_inv_def effect_def Let_def)
next
  case (Resolved i ns)
  assume "guard_inv s" "step env s ev = Some s'"
  with Resolved show ?thesis
    by (auto simp: guard_inv_def fetch_resolved_def Let_def settle_single split: if_splits sum.splits)
next
  case (Rejected i)
  assume "guard_inv s" "step env s ev = Some s'"
  with Rejected show ?thesis
    by (auto simp: guard_inv_def fetch_rejected_def settle_single split: if_splits)
qed

lemma guard_inv_run: "guard_inv s \<Longrightarrow> run env s evs = Some s' \<Longrightarrow> guard_inv s'"
proof (induction evs arbitrary: s)
  case Nil
  then show ?case by simp
next
  case (Cons ev evs)
  then obtain s1 where 1: "step env s ev = Some s1" and 2: "run env s1 evs = Some s'"
    by (auto split: option.splits)
  from Cons.IH [OF guard_inv_step [OF Cons.prems(1) 1] 2] show ?case .
qed

lemma effect_noop: "missing env ks (loaded s) = [] \<or> fetching s \<Longrightarrow> effect env ks s = s"
  by (auto simp: effect_def Let_def)

lemma effect_issue:
  "\<not> fetching s \<Longrightarrow> missing env ks (loaded s) \<noteq> [] \<Longrightarrow>
   effect env ks s = s\<lparr>fetching := True, in_flight := in_flight s @ [missing env ks (loaded s)],
                         sent := sent s @ [missing env ks (loaded s)]\<rparr>"
  by (simp add: effect_def Let_def)

lemma decodeEntries_keys:
  "decodeEntries env ns = Inr es \<Longrightarrow> map fst es = map (\<lambda>n. toGraphId env (node_assetKey n)) ns"
  by (induction ns arbitrary: es) (auto split: sum.splits)

lemma fetch_resolved_failure:
  "decodeEntries env ns = Inl e \<Longrightarrow>
   fetch_resolved env i ns s =
     s\<lparr>fetching := False, in_flight := settle i (in_flight s), uncaught := uncaught s @ [e]\<rparr>"
  by (simp add: fetch_resolved_def Let_def)

lemma fetch_resolved_success:
  "decodeEntries env ns = Inr es \<Longrightarrow>
   fetch_resolved env i ns s =
     s\<lparr>fetching := False, in_flight := settle i (in_flight s),
        loaded := setLoaded_updater (loaded s) es\<rparr>"
  by (simp add: fetch_resolved_def Let_def)

lemma absent_step:
  assumes "step env s ev = Some s'" and "loaded s k = None"
    and "\<forall>i ns. ev = Resolved i ns \<longrightarrow> k \<notin> (\<lambda>n. toGraphId env (node_assetKey n)) ` set ns"
  shows "loaded s' k = None"
proof (cases ev)
  case (Effect ks)
  with assms show ?thesis by auto
next
  case (Resolved i ns)
  with assms have s': "s' = fetch_resolved env i ns s"
    and k: "k \<notin> (\<lambda>n. toGraphId env (node_assetKey n)) ` set ns"
    by (auto split: if_splits)
  show ?thesis
  proof (cases "decodeEntries env ns")
    case (Inl e)
    with s' assms(2) show ?thesis by (simp add: loaded_fetch_resolved)
  next
    case (Inr es)
    from decodeEntries_keys [OF Inr] k have "k \<notin> set (map fst es)"
      by simp
    then have "k \<notin> dom (setLoaded_updater (loaded s) es)"
      using assms(2) by (auto simp: dom_setLoaded_updater)
    with s' Inr show ?thesis by (auto simp: loaded_fetch_resolved)
  qed
next
  case (Rejected i)
  with assms show ?thesis by (auto split: if_splits)
qed

lemma absent_run:
  assumes "run env s evs = Some s'" and "loaded s k = None"
    and "\<forall>i ns. Resolved i ns \<in> set evs \<longrightarrow> k \<notin> (\<lambda>n. toGraphId env (node_assetKey n)) ` set ns"
  shows "loaded s' k = None"
  using assms
proof (induction evs arbitrary: s)
  case Nil
  then show ?case by simp
next
  case (Cons ev evs)
  then obtain s1 where 1: "step env s ev = Some s1" and 2: "run env s1 evs = Some s'"
    by (auto split: option.splits)
  have "\<forall>i ns. ev = Resolved i ns \<longrightarrow> k \<notin> (\<lambda>n. toGraphId env (node_assetKey n)) ` set ns"
    using Cons.prems(3) by simp
  with 1 Cons.prems(2) have "loaded s1 k = None"
    by (rule absent_step)
  from Cons.IH [OF 2 this] Cons.prems(3) show ?case by auto
qed

lemma sent_step:
  assumes "step env s ev = Some s'"
  shows "\<exists>qs. sent s' = sent s @ qs
     \<and> (\<forall>q \<in> set qs. \<forall>a \<in> set q. loaded s (toGraphId env a) = None)"
proof (cases ev)
  case (Effect ks)
  with assms have s': "s' = effect env ks s"
    by simp
  show ?thesis
  proof (cases "\<not> fetching s \<and> missing env ks (loaded s) \<noteq> []")
    case True
    then have "sent s' = sent s @ [missing env ks (loaded s)]"
      by (simp add: s' effect_issue)
    moreover have "\<forall>a \<in> set (missing env ks (loaded s)). loaded s (toGraphId env a) = None"
      by (simp add: missing_def)
    ultimately show ?thesis by simp
  next
    case False
    then have "missing env ks (loaded s) = [] \<or> fetching s"
      by blast
    then have "s' = s"
      using s' by (simp only: effect_noop)
    then show ?thesis by simp
  qed
next
  case (Resolved i ns)
  with assms have "sent s' = sent s"
    by (auto simp: fetch_resolved_def Let_def split: if_splits sum.splits)
  then show ?thesis by simp
next
  case (Rejected i)
  with assms have "sent s' = sent s"
    by (auto simp: fetch_rejected_def split: if_splits)
  then show ?thesis by simp
qed

lemma sent_run:
  assumes "run env s evs = Some s'" and "loaded s (toGraphId env a) \<noteq> None"
  shows "\<exists>qs. sent s' = sent s @ qs \<and> (\<forall>q \<in> set qs. a \<notin> set q)"
  using assms
proof (induction evs arbitrary: s)
  case Nil
  then show ?case by simp
next
  case (Cons ev evs)
  then obtain s1 where 1: "step env s ev = Some s1" and 2: "run env s1 evs = Some s'"
    by (auto split: option.splits)
  from sent_step [OF 1] obtain qs1 where q1: "sent s1 = sent s @ qs1"
    and m1: "\<forall>q \<in> set qs1. \<forall>b \<in> set q. loaded s (toGraphId env b) = None"
    by blast
  from m1 Cons.prems(2) have n1: "\<forall>q \<in> set qs1. a \<notin> set q"
    by auto
  from dom_loaded_step [OF 1] Cons.prems(2) have "loaded s1 (toGraphId env a) \<noteq> None"
    by blast
  from Cons.IH [OF 2 this] obtain qs2 where q2: "sent s' = sent s1 @ qs2"
    and n2: "\<forall>q \<in> set qs2. a \<notin> set q"
    by blast
  from q1 q2 have "sent s' = sent s @ (qs1 @ qs2)"
    by simp
  moreover from n1 n2 have "\<forall>q \<in> set (qs1 @ qs2). a \<notin> set q"
    by auto
  ultimately show ?case by blast
qed

section \<open>The example inputs, evaluated\<close>

lemma example_ids:
  "toGraphId example_env key_t1 = ''/t1''"
  "toGraphId example_env key_t2 = ''/t2''"
  "toGraphId example_env key_t3 = ''/t3''"
  by (simp_all add: example_env_def key_t1_def key_t2_def key_t3_def)

lemma example_keys_distinct: "key_t1 \<noteq> key_t2" "key_t1 \<noteq> key_t3" "key_t2 \<noteq> key_t3"
  by (simp_all add: key_t1_def key_t2_def key_t3_def)

lemma example_parse_simps:
  "JSON_parse example_env example_text = Some example_payload"
  "JSON_parse example_env unwrapped_text = Some unwrapped_payload"
  "JSON_parse example_env malformed_text = None"
  by (simp_all add: example_env_def example_parse_def example_text_def unwrapped_text_def
      malformed_text_def)

lemma example_find:
  "find (isCanonicalColumnLineageEntry example_env) (metadataEntries (materialized ts text))
     = Some (lineage_entry text)"
  by (simp add: example_env_def materialized_def lineage_entry_def)

lemma example_jsonString: "jsonString (lineage_entry text) = Some text"
  by (simp add: lineage_entry_def)

lemma example_schema_lineage:
  "buildConsolidatedColumnSchema example_env (Some (materialized ts text)) node_lineage
     = Some example_columns"
  by (simp add: example_env_def materialized_def lineage_entry_def node_lineage_def)

lemma example_schema_unwrapped:
  "buildConsolidatedColumnSchema example_env (Some (materialized ts text)) node_unwrapped = None"
  by (simp add: example_env_def materialized_def lineage_entry_def node_unwrapped_def)

lemma example_schemaParsed_a:
  "schemaParsed (Some example_columns) ''a''
     = Some \<lparr>col_name = ''a'', col_type = ''INT'', col_description = None\<rparr>"
  by (simp add: schemaParsed_def example_columns_def fromEntries_def)

lemma example_materializations:
  "assetMaterializations node_lineage = materialized ''1700000000000'' example_text # []"
  "assetMaterializations node_unwrapped = materialized ''1700000000002'' unwrapped_text # []"
  "assetMaterializations node_malformed = materialized ''1700000000001'' malformed_text # []"
  "assetMaterializations node_plain = []"
  by (simp_all add: node_lineage_def node_unwrapped_def node_malformed_def node_plain_def)

lemma decode_node_plain: "getColumnLineage example_env node_plain = Inr Map.empty"
  by (simp add: getColumnLineage_def node_plain_def index0_def)

lemma decode_node_malformed: "getColumnLineage example_env node_malformed = Inl SyntaxError"
  by (rule getColumnLineage_throws [OF example_materializations(3) example_find])
    (simp add: example_jsonString example_parse_simps)

lemma decode_node_lineage:
  "getColumnLineage example_env node_lineage =
     Inr example_local"
proof -
  have "getColumnLineage example_env node_lineage =
     Inr (fromEntries (map (localColumn (schemaParsed (Some example_columns))
            (Some (materialized ''1700000000000'' example_text))) example_payload))"
    using getColumnLineage_payload [OF example_materializations(1) example_find
        example_jsonString example_parse_simps(1)]
    by (simp add: example_schema_lineage)
  then show ?thesis
    by (simp add: example_payload_def fromEntries_def localColumn_def localUpstream_def
        index0_def or_null_def example_schemaParsed_a materialized_def example_local_def)
qed

lemma decode_node_unwrapped:
  "getColumnLineage example_env node_unwrapped =
     Inr unwrapped_local"
proof -
  have "getColumnLineage example_env node_unwrapped =
     Inr (fromEntries (map (localColumn (schemaParsed None)
            (Some (materialized ''1700000000002'' unwrapped_text))) unwrapped_payload))"
    using getColumnLineage_payload [OF example_materializations(2) example_find
        example_jsonString example_parse_simps(2)]
    by (simp add: example_schema_unwrapped)
  then show ?thesis
    by (simp add: unwrapped_payload_def fromEntries_def localColumn_def localUpstream_def
        index0_def or_null_def schemaParsed_def materialized_def unwrapped_local_def)
qed

lemma example_node_keys:
  "node_assetKey node_plain = key_t1" "node_assetKey node_lineage = key_t2"
  "node_assetKey node_malformed = key_t3" "node_assetKey node_unwrapped = key_t3"
  by (simp_all add: node_plain_def node_lineage_def node_malformed_def node_unwrapped_def)

section \<open>The properties of the specification\<close>

text \<open>
  C3. For every requested key list and every cache, \<^verbatim>\<open>missing\<close> returns exactly the
  requested keys whose identifier has no entry in the cache, in the order of the request.
\<close>

theorem missing_exact_in_order:
  "set (missing env requested cache) = {a \<in> set requested. cache (toGraphId env a) = None}
   \<and> subseq (missing env requested cache) requested"
  by (simp add: missing_def)

theorem missing_exact_in_order_witness:
  "set (missing example_env [key_t1, key_t2, key_t3] [''/t2'' \<mapsto> Map.empty]) = {key_t1, key_t3}
   \<and> subseq (missing example_env [key_t1, key_t2, key_t3] [''/t2'' \<mapsto> Map.empty])
        [key_t1, key_t2, key_t3]"
proof -
  have "{a \<in> set [key_t1, key_t2, key_t3]. [''/t2'' \<mapsto> Map.empty] (toGraphId example_env a) = None}
      = {key_t1, key_t3}"
    by (auto simp: example_ids)
  with missing_exact_in_order [of example_env "[key_t1, key_t2, key_t3]" "[''/t2'' \<mapsto> Map.empty]"]
  show ?thesis by simp
qed

text \<open>
  C4. For a fixed request, the missing keys only shrink when batches are merged into the
  cache, whether the merges are taken alone or along any run of the hook: a merge
  removes no entry, so a key that has an entry (an empty one included) is never reported
  missing again, and it is never fetched again: along every run from a state in which
  the key has an entry, no query that is sent contains it.
\<close>

theorem missing_antimono_merge:
  "set (missing env requested (foldl setLoaded_updater cache batches))
     \<subseteq> set (missing env requested cache)
   \<and> dom cache \<subseteq> dom (foldl setLoaded_updater cache batches)
   \<and> (\<forall>a. cache (toGraphId env a) \<noteq> None \<longrightarrow>
          a \<notin> set (missing env requested (foldl setLoaded_updater cache batches)))
   \<and> (\<forall>evs s s'. run env s evs = Some s' \<longrightarrow>
          set (missing env requested (loaded s')) \<subseteq> set (missing env requested (loaded s)))
   \<and> (\<forall>evs s s' a. loaded s (toGraphId env a) \<noteq> None \<and> run env s evs = Some s' \<longrightarrow>
          (\<exists>qs. sent s' = sent s @ qs \<and> (\<forall>q \<in> set qs. a \<notin> set q)))"
proof -
  have 1: "set (missing env requested (loaded s')) \<subseteq> set (missing env requested (loaded s))"
    if "run env s evs = Some s'" for evs s s'
    using dom_loaded_run [OF that] by (auto simp: set_missing)
  have 2: "\<exists>qs. sent s' = sent s @ qs \<and> (\<forall>q \<in> set qs. a \<notin> set q)"
    if "loaded s (toGraphId env a) \<noteq> None \<and> run env s evs = Some s'" for evs s s' a
    using that sent_run [of env s evs s' a] by blast
  have 3: "set (missing env requested (foldl setLoaded_updater cache batches))
     \<subseteq> set (missing env requested cache)
   \<and> dom cache \<subseteq> dom (foldl setLoaded_updater cache batches)
   \<and> (\<forall>a. cache (toGraphId env a) \<noteq> None \<longrightarrow>
          a \<notin> set (missing env requested (foldl setLoaded_updater cache batches)))"
    using dom_foldl_setLoaded_updater [of cache batches]
    by (auto simp: set_missing)
  from 1 2 3 show ?thesis by blast
qed

theorem missing_antimono_merge_witness:
  "[''/t1'' \<mapsto> Map.empty] (toGraphId example_env key_t1) \<noteq> None
   \<and> key_t1 \<notin> set (missing example_env [key_t1, key_t2]
          (foldl setLoaded_updater [''/t1'' \<mapsto> Map.empty]
             [[(''/t2'', Map.empty)], [(''/t1'', Map.empty)]]))
   \<and> (\<exists>s'. run example_env init [Effect [key_t1], Resolved 0 [node_plain]] = Some s'
        \<and> set (missing example_env [key_t1, key_t2] (loaded s'))
             \<subseteq> set (missing example_env [key_t1, key_t2] (loaded init))
        \<and> loaded s' (toGraphId example_env key_t1) \<noteq> None
        \<and> run example_env s' [Effect [key_t1, key_t2], Rejected 0, Effect [key_t1]]
            = Some (fetch_rejected 0 (effect example_env [key_t1, key_t2] s'))
        \<and> sent (fetch_rejected 0 (effect example_env [key_t1, key_t2] s')) = sent s' @ [[key_t2]]
        \<and> (\<exists>qs. sent (fetch_rejected 0 (effect example_env [key_t1, key_t2] s')) = sent s' @ qs
              \<and> key_t1 \<notin> \<Union> (set ` set qs)))"
proof -
  note t = missing_antimono_merge [of example_env "[key_t1, key_t2]" "[''/t1'' \<mapsto> Map.empty]"
      "[[(''/t2'', Map.empty)], [(''/t1'', Map.empty)]]"]
  let ?started = "effect example_env [key_t1] init"
  let ?s = "fetch_resolved example_env 0 [node_plain] ?started"
  let ?e = "effect example_env [key_t1, key_t2] ?s"
  let ?s' = "fetch_rejected 0 ?e"
  have h: "[''/t1'' \<mapsto> Map.empty] (toGraphId example_env key_t1) \<noteq> None"
    by (simp add: example_ids)
  have r: "run example_env init [Effect [key_t1], Resolved 0 [node_plain]] = Some ?s"
    by (simp add: effect_def init_def missing_def Let_def)
  have d: "decodeEntries example_env [node_plain] = Inr [(''/t1'', Map.empty)]"
    by (simp add: decode_node_plain example_node_keys example_ids)
  have s0: "?started = \<lparr>loaded = Map.empty, fetching = True, in_flight = [[key_t1]],
      sent = [[key_t1]], uncaught = []\<rparr>"
    by (simp add: effect_def init_def missing_def Let_def)
  have "?s = fetch_resolved example_env 0 [node_plain]
      \<lparr>loaded = Map.empty, fetching = True, in_flight = [[key_t1]],
       sent = [[key_t1]], uncaught = []\<rparr>"
    by (simp only: s0)
  then have s: "?s = \<lparr>loaded = setLoaded_updater Map.empty [(''/t1'', Map.empty)],
      fetching = False, in_flight = [], sent = [[key_t1]], uncaught = []\<rparr>"
    by (simp add: fetch_resolved_success [OF d] settle_def)
  have c: "loaded ?s (toGraphId example_env key_t1) \<noteq> None"
    by (simp add: s example_ids setLoaded_updater_apply)
  have m: "missing example_env [key_t1, key_t2] (loaded ?s) = [key_t2]"
    by (simp add: s missing_def example_ids setLoaded_updater_apply)
  have f: "\<not> fetching ?s"
    by (simp add: s)
  from f m have e: "?e = ?s\<lparr>fetching := True, in_flight := in_flight ?s @ [[key_t2]],
      sent := sent ?s @ [[key_t2]]\<rparr>"
    using effect_issue [of ?s example_env "[key_t1, key_t2]"] by simp
  have i: "0 < length (in_flight ?e)"
    by (simp add: e)
  have fe: "fetching ?s'"
    by (simp add: e fetch_rejected_def)
  have n: "effect example_env [key_t1] ?s' = ?s'"
    by (rule effect_noop) (simp add: fe)
  have r2: "run example_env ?s [Effect [key_t1, key_t2], Rejected 0, Effect [key_t1]] = Some ?s'"
    using i n by simp
  have q: "sent ?s' = sent ?s @ [[key_t2]]"
    by (simp add: e fetch_rejected_def)
  note u = t [THEN conjunct2, THEN conjunct2]
  note v = u [THEN conjunct2]
  from v [THEN conjunct2, rule_format, OF conjI [OF c r2]]
  obtain qs where qs: "sent ?s' = sent ?s @ qs" and nq: "\<forall>q \<in> set qs. key_t1 \<notin> set q"
    by blast
  from nq have nq': "key_t1 \<notin> \<Union> (set ` set qs)"
    by blast
  from v [THEN conjunct1, rule_format, OF r]
  have sub: "set (missing example_env [key_t1, key_t2] (loaded ?s))
             \<subseteq> set (missing example_env [key_t1, key_t2] (loaded init))" .
  from u [THEN conjunct1, rule_format, OF h]
  have k: "key_t1 \<notin> set (missing example_env [key_t1, key_t2]
          (foldl setLoaded_updater [''/t1'' \<mapsto> Map.empty]
             [[(''/t2'', Map.empty)], [(''/t1'', Map.empty)]]))" .
  from h k r sub c r2 q qs nq' show ?thesis
    by blast
qed

text \<open>
  C6. The merge of the \<^verbatim>\<open>setLoaded\<close> updater is idempotent, and its result is the old
  cache with every entry of the batch inserted or overwritten (the last entry of a key
  wins); the old cache is an argument of a function and is not changed.
\<close>

theorem setLoaded_updater_idempotent:
  "setLoaded_updater (setLoaded_updater cache batch) batch = setLoaded_updater cache batch
   \<and> (\<forall>k. k \<notin> fst ` set batch \<longrightarrow> setLoaded_updater cache batch k = cache k)
   \<and> (\<forall>k. k \<in> fst ` set batch \<longrightarrow> setLoaded_updater cache batch k = map_of (rev batch) k)"
proof -
  have 1: "setLoaded_updater (setLoaded_updater cache batch) batch = setLoaded_updater cache batch"
    by (rule ext) (simp add: setLoaded_updater_def map_add_def split: option.split)
  have 2: "setLoaded_updater cache batch k = cache k" if "k \<notin> fst ` set batch" for k
  proof -
    from that have "map_of (rev batch) k = None"
      by (simp add: map_of_eq_None_iff)
    then show ?thesis by (simp add: setLoaded_updater_apply)
  qed
  have 3: "setLoaded_updater cache batch k = map_of (rev batch) k" if "k \<in> fst ` set batch" for k
  proof -
    from that have "map_of (rev batch) k \<noteq> None"
      by (simp add: map_of_eq_None_iff)
    then show ?thesis by (auto simp: setLoaded_updater_apply)
  qed
  from 1 2 3 show ?thesis by blast
qed

theorem setLoaded_updater_idempotent_witness:
  "''/t2'' \<notin> fst ` set [(''/t1'', Map.empty), (''/t1'', example_local)]
   \<and> setLoaded_updater [''/t2'' \<mapsto> Map.empty] [(''/t1'', Map.empty), (''/t1'', example_local)] ''/t2''
       = Some Map.empty
   \<and> ''/t1'' \<in> fst ` set [(''/t1'', Map.empty), (''/t1'', example_local)]
   \<and> setLoaded_updater [''/t2'' \<mapsto> Map.empty] [(''/t1'', Map.empty), (''/t1'', example_local)] ''/t1''
       = Some example_local
   \<and> setLoaded_updater
         (setLoaded_updater [''/t2'' \<mapsto> Map.empty] [(''/t1'', Map.empty), (''/t1'', example_local)])
         [(''/t1'', Map.empty), (''/t1'', example_local)]
       = setLoaded_updater [''/t2'' \<mapsto> Map.empty] [(''/t1'', Map.empty), (''/t1'', example_local)]"
proof -
  note t = setLoaded_updater_idempotent [of "[''/t2'' \<mapsto> Map.empty]"
      "[(''/t1'', Map.empty), (''/t1'', example_local)]"]
  have a: "''/t2'' \<notin> fst ` set [(''/t1'', Map.empty), (''/t1'', example_local)]"
    by simp
  have b: "''/t1'' \<in> fst ` set [(''/t1'', Map.empty), (''/t1'', example_local)]"
    by simp
  have c: "map_of (rev [(''/t1'', Map.empty), (''/t1'', example_local)]) ''/t1'' = Some example_local"
    by simp
  from t a have "setLoaded_updater [''/t2'' \<mapsto> Map.empty]
      [(''/t1'', Map.empty), (''/t1'', example_local)] ''/t2'' = [''/t2'' \<mapsto> Map.empty] ''/t2''"
    by blast
  moreover from t b c have "setLoaded_updater [''/t2'' \<mapsto> Map.empty]
      [(''/t1'', Map.empty), (''/t1'', example_local)] ''/t1'' = Some example_local"
    by metis
  ultimately show ?thesis using a b t by simp
qed

text \<open>
  C5. In every state the hook reaches from its initial state at most one query is in
  flight. An effect that finds nothing missing, or finds \<^verbatim>\<open>fetching.current\<close> set, changes
  nothing and sends nothing. Of two effects that run before a query settles, the first
  sends one query, for the keys missing when it runs, and the second sends none.
\<close>

theorem single_flight:
  "run env init evs = Some s \<Longrightarrow>
     length (in_flight s) \<le> 1
   \<and> (\<forall>ks. missing env ks (loaded s) = [] \<or> fetching s \<longrightarrow> effect env ks s = s)
   \<and> (\<forall>ks1 ks2. \<not> fetching s \<and> missing env ks1 (loaded s) \<noteq> [] \<longrightarrow>
         sent (effect env ks2 (effect env ks1 s)) = sent s @ [missing env ks1 (loaded s)]
       \<and> in_flight (effect env ks2 (effect env ks1 s)) = [missing env ks1 (loaded s)])"
proof -
  assume r: "run env init evs = Some s"
  have inv: "guard_inv s"
    by (rule guard_inv_run [OF guard_inv_init r])
  have a: "length (in_flight s) \<le> 1"
    using inv by (simp add: guard_inv_def)
  have b: "effect env ks s = s" if "missing env ks (loaded s) = [] \<or> fetching s" for ks
    using that by (rule effect_noop)
  have c: "sent (effect env ks2 (effect env ks1 s)) = sent s @ [missing env ks1 (loaded s)]
       \<and> in_flight (effect env ks2 (effect env ks1 s)) = [missing env ks1 (loaded s)]"
    if "\<not> fetching s \<and> missing env ks1 (loaded s) \<noteq> []" for ks1 ks2
  proof -
    from that inv have e: "in_flight s = []"
      by (auto simp: guard_inv_def)
    from that have 1: "effect env ks1 s =
        s\<lparr>fetching := True, in_flight := in_flight s @ [missing env ks1 (loaded s)],
           sent := sent s @ [missing env ks1 (loaded s)]\<rparr>"
      by (simp add: effect_issue)
    have 2: "effect env ks2 (effect env ks1 s) = effect env ks1 s"
      by (rule effect_noop) (simp add: 1)
    show ?thesis by (simp add: 2) (simp add: 1 e)
  qed
  from a b c show ?thesis by blast
qed

theorem single_flight_witness:
  "\<exists>s. run example_env init
         [Effect [key_t1, key_t2], Effect [key_t1, key_t2, key_t3], Resolved 0 [node_plain, node_lineage]]
       = Some s
     \<and> length (in_flight s) \<le> 1
     \<and> missing example_env [key_t1, key_t2] (loaded s) = []
     \<and> effect example_env [key_t1, key_t2] s = s
     \<and> \<not> fetching s
     \<and> missing example_env [key_t2, key_t3] (loaded s) = [key_t3]
     \<and> sent (effect example_env [key_t1, key_t3] (effect example_env [key_t2, key_t3] s))
         = sent s @ [[key_t3]]
     \<and> in_flight (effect example_env [key_t1, key_t3] (effect example_env [key_t2, key_t3] s))
         = [[key_t3]]"
proof -
  let ?s1 = "effect example_env [key_t1, key_t2] init"
  let ?s2 = "effect example_env [key_t1, key_t2, key_t3] ?s1"
  let ?s = "fetch_resolved example_env 0 [node_plain, node_lineage] ?s2"
  have s1: "?s1 = \<lparr>loaded = Map.empty, fetching = True, in_flight = [[key_t1, key_t2]],
      sent = [[key_t1, key_t2]], uncaught = []\<rparr>"
    by (simp add: effect_def init_def missing_def Let_def)
  have s2: "?s2 = ?s1"
    by (rule effect_noop) (simp add: s1)
  have d: "decodeEntries example_env [node_plain, node_lineage]
      = Inr [(''/t1'', Map.empty), (''/t2'', example_local)]"
    by (simp add: decode_node_plain decode_node_lineage example_node_keys example_ids)
  have "?s = fetch_resolved example_env 0 [node_plain, node_lineage] ?s1"
    by (simp only: s2)
  also have "\<dots> = fetch_resolved example_env 0 [node_plain, node_lineage]
      \<lparr>loaded = Map.empty, fetching = True, in_flight = [[key_t1, key_t2]],
       sent = [[key_t1, key_t2]], uncaught = []\<rparr>"
    by (simp only: s1)
  finally have s: "?s = \<lparr>loaded = setLoaded_updater Map.empty [(''/t1'', Map.empty), (''/t2'', example_local)],
      fetching = False, in_flight = [], sent = [[key_t1, key_t2]], uncaught = []\<rparr>"
    by (simp add: fetch_resolved_success [OF d] settle_def)
  have r: "run example_env init
         [Effect [key_t1, key_t2], Effect [key_t1, key_t2, key_t3], Resolved 0 [node_plain, node_lineage]]
       = Some ?s"
    by (simp add: s2) (simp add: s1)
  note t = single_flight [OF r]
  have m1: "missing example_env [key_t1, key_t2] (loaded ?s) = []"
    by (simp add: s missing_def example_ids setLoaded_updater_apply)
  have m2: "missing example_env [key_t2, key_t3] (loaded ?s) = [key_t3]"
    by (simp add: s missing_def example_ids setLoaded_updater_apply)
  have f: "\<not> fetching ?s"
    by (simp add: s)
  from t have 1: "length (in_flight ?s) \<le> 1"
    by blast
  from t m1 have 2: "effect example_env [key_t1, key_t2] ?s = ?s"
    by blast
  from m2 have "\<not> fetching ?s \<and> missing example_env [key_t2, key_t3] (loaded ?s) \<noteq> []"
    using f by simp
  with t have "sent (effect example_env [key_t1, key_t3] (effect example_env [key_t2, key_t3] ?s))
         = sent ?s @ [missing example_env [key_t2, key_t3] (loaded ?s)]
     \<and> in_flight (effect example_env [key_t1, key_t3] (effect example_env [key_t2, key_t3] ?s))
         = [missing example_env [key_t2, key_t3] (loaded ?s)]"
    by blast
  with m2 have 3: "sent (effect example_env [key_t1, key_t3] (effect example_env [key_t2, key_t3] ?s))
         = sent ?s @ [[key_t3]]
     \<and> in_flight (effect example_env [key_t1, key_t3] (effect example_env [key_t2, key_t3] ?s))
         = [[key_t3]]"
    by simp
  from r 1 m1 2 f m2 3 show ?thesis by blast
qed

text \<open>
  C7. An asset with no materialization, or whose materialization has no lineage entry,
  decodes to the empty object and not to an exception; once a response with it is merged,
  its identifier has an entry in the cache, and in every later state of the hook no key
  with that identifier is reported missing.
\<close>

theorem empty_decode_is_resolved:
  assumes "assetMaterializations n = [] \<or>
      find (isCanonicalColumnLineageEntry env) (metadataEntries (hd (assetMaterializations n))) = None"
  shows "getColumnLineage env n = Inr Map.empty
     \<and> loaded (fetch_resolved env i [n] s) (toGraphId env (node_assetKey n)) = Some Map.empty
     \<and> (\<forall>evs s' requested a.
           run env (fetch_resolved env i [n] s) evs = Some s'
           \<and> toGraphId env a = toGraphId env (node_assetKey n) \<longrightarrow>
             a \<notin> set (missing env requested (loaded s')))"
proof -
  let ?k = "toGraphId env (node_assetKey n)"
  have 1: "getColumnLineage env n = Inr Map.empty"
    using assms by (rule getColumnLineage_empty)
  then have d: "decodeEntries env [n] = Inr [(?k, Map.empty)]"
    by simp
  have 2: "loaded (fetch_resolved env i [n] s) ?k = Some Map.empty"
    by (simp add: fetch_resolved_success [OF d] setLoaded_updater_apply)
  have 3: "a \<notin> set (missing env requested (loaded s'))"
    if "run env (fetch_resolved env i [n] s) evs = Some s'" and "toGraphId env a = ?k"
    for evs s' requested a
  proof -
    from 2 have "?k \<in> dom (loaded (fetch_resolved env i [n] s))"
      by blast
    with dom_loaded_run [OF that(1)] have "?k \<in> dom (loaded s')"
      by blast
    with that(2) show ?thesis
      by (simp add: set_missing)
  qed
  from 1 2 3 show ?thesis by blast
qed

theorem empty_decode_is_resolved_witness:
  "assetMaterializations node_plain = []
   \<and> getColumnLineage example_env node_plain = Inr Map.empty
   \<and> loaded (fetch_resolved example_env 0 [node_plain] (effect example_env [key_t1] init)) ''/t1''
       = Some Map.empty
   \<and> run example_env (fetch_resolved example_env 0 [node_plain] (effect example_env [key_t1] init))
         [Effect [key_t1, key_t2]]
       = Some (effect example_env [key_t1, key_t2]
                 (fetch_resolved example_env 0 [node_plain] (effect example_env [key_t1] init)))
   \<and> key_t1 \<notin> set (missing example_env [key_t1, key_t2]
         (loaded (effect example_env [key_t1, key_t2]
                 (fetch_resolved example_env 0 [node_plain] (effect example_env [key_t1] init)))))"
proof -
  have h: "assetMaterializations node_plain = []"
    by (rule example_materializations)
  then have h': "assetMaterializations node_plain = [] \<or>
      find (isCanonicalColumnLineageEntry example_env)
        (metadataEntries (hd (assetMaterializations node_plain))) = None"
    by simp
  note t = empty_decode_is_resolved [OF h', of 0 "effect example_env [key_t1] init"]
  have k: "toGraphId example_env (node_assetKey node_plain) = ''/t1''"
    by (simp add: example_node_keys example_ids)
  have r: "run example_env (fetch_resolved example_env 0 [node_plain] (effect example_env [key_t1] init))
         [Effect [key_t1, key_t2]]
       = Some (effect example_env [key_t1, key_t2]
                 (fetch_resolved example_env 0 [node_plain] (effect example_env [key_t1] init)))"
    by simp
  have e: "toGraphId example_env key_t1 = toGraphId example_env (node_assetKey node_plain)"
    by (simp add: example_node_keys)
  from t [THEN conjunct2, THEN conjunct2, rule_format, OF conjI [OF r e]]
    t [THEN conjunct1] t [THEN conjunct2, THEN conjunct1] h r
  show ?thesis by (simp add: k)
qed

text \<open>
  C8. When the lineage payload of an asset parses, the columns of the decoder's result are
  exactly the keys of the parsed payload; a column of the consolidated schema that the
  payload does not name is not in the result.
\<close>

theorem decoded_columns_are_payload_keys:
  assumes "assetMaterializations n = mat # rest"
    and "find (isCanonicalColumnLineageEntry env) (metadataEntries mat) = Some entry"
    and "jsonString entry = Some text"
    and "JSON_parse env text = Some lineageParsed"
  shows "\<exists>decoded. getColumnLineage env n = Inr decoded
     \<and> dom decoded = fst ` set lineageParsed
     \<and> (\<forall>cols c. buildConsolidatedColumnSchema env (Some mat) n = Some cols
          \<and> c \<in> col_name ` set cols \<and> c \<notin> fst ` set lineageParsed \<longrightarrow> decoded c = None)"
proof -
  let ?d = "fromEntries (map (localColumn
            (schemaParsed (buildConsolidatedColumnSchema env (Some mat) n)) (Some mat)) lineageParsed)"
  have 1: "getColumnLineage env n = Inr ?d"
    using assms by (rule getColumnLineage_payload)
  have 2: "dom ?d = fst ` set lineageParsed"
    by (rule dom_fromEntries_localColumn)
  have 3: "?d c = None" if "c \<notin> fst ` set lineageParsed" for c
    using that 2 by blast
  from 1 2 3 show ?thesis by blast
qed

theorem decoded_columns_are_payload_keys_witness:
  "\<exists>decoded. getColumnLineage example_env node_lineage = Inr decoded
     \<and> dom decoded = {''a''}
     \<and> buildConsolidatedColumnSchema example_env
           (Some (materialized ''1700000000000'' example_text)) node_lineage = Some example_columns
     \<and> ''b'' \<in> col_name ` set example_columns
     \<and> ''b'' \<notin> fst ` set example_payload
     \<and> decoded ''b'' = None"
proof -
  from decoded_columns_are_payload_keys [OF example_materializations(1) example_find
      example_jsonString example_parse_simps(1)]
  obtain decoded where d: "getColumnLineage example_env node_lineage = Inr decoded"
    and k: "dom decoded = fst ` set example_payload"
    and a: "\<forall>cols c. buildConsolidatedColumnSchema example_env
           (Some (materialized ''1700000000000'' example_text)) node_lineage = Some cols
          \<and> c \<in> col_name ` set cols \<and> c \<notin> fst ` set example_payload \<longrightarrow> decoded c = None"
    by blast
  have 1: "''b'' \<in> col_name ` set example_columns"
    by (simp add: example_columns_def)
  have 2: "''b'' \<notin> fst ` set example_payload"
    by (simp add: example_payload_def)
  have 3: "fst ` set example_payload = {''a''}"
    by (simp add: example_payload_def)
  from a example_schema_lineage 1 2 have "decoded ''b'' = None"
    by blast
  with d k 1 2 3 example_schema_lineage show ?thesis
    by simp
qed

text \<open>
  C9. After a response is decoded and merged, the cache has gained entries exactly for the
  identifiers of the response's nodes. A requested key that was missing and that the
  response does not contain has no entry afterwards, is still missing, and is part of the
  query that the next effect sends; it stays so along every run in which no response
  contains it.
\<close>

theorem unreturned_key_stays_missing:
  assumes "decodeEntries env assetNodes = Inr entries"
  shows "dom (loaded (fetch_resolved env i assetNodes s)) =
           dom (loaded s) \<union> (\<lambda>n. toGraphId env (node_assetKey n)) ` set assetNodes
     \<and> (\<forall>a \<in> set requested.
           loaded s (toGraphId env a) = None
           \<and> toGraphId env a \<notin> (\<lambda>n. toGraphId env (node_assetKey n)) ` set assetNodes \<longrightarrow>
             loaded (fetch_resolved env i assetNodes s) (toGraphId env a) = None
           \<and> a \<in> set (missing env requested (loaded (fetch_resolved env i assetNodes s)))
           \<and> sent (effect env requested (fetch_resolved env i assetNodes s)) =
               sent s @ [missing env requested (loaded (fetch_resolved env i assetNodes s))])
     \<and> (\<forall>a evs s'.
           loaded s (toGraphId env a) = None \<and> run env s evs = Some s'
           \<and> (\<forall>j ns. Resolved j ns \<in> set evs \<longrightarrow>
                 toGraphId env a \<notin> (\<lambda>n. toGraphId env (node_assetKey n)) ` set ns) \<longrightarrow>
             loaded s' (toGraphId env a) = None)"
proof -
  let ?s' = "fetch_resolved env i assetNodes s"
  let ?ids = "(\<lambda>n. toGraphId env (node_assetKey n)) ` set assetNodes"
  have s': "?s' = s\<lparr>fetching := False, in_flight := settle i (in_flight s),
        loaded := setLoaded_updater (loaded s) entries\<rparr>"
    using assms by (rule fetch_resolved_success)
  have ids: "fst ` set entries = ?ids"
    using decodeEntries_keys [OF assms] by (metis (no_types) image_set)
  have a: "dom (loaded ?s') = dom (loaded s) \<union> ?ids"
    by (simp add: s' dom_setLoaded_updater ids)
  have b: "loaded ?s' (toGraphId env a) = None
           \<and> a \<in> set (missing env requested (loaded ?s'))
           \<and> sent (effect env requested ?s') = sent s @ [missing env requested (loaded ?s')]"
    if "a \<in> set requested" and "loaded s (toGraphId env a) = None" and "toGraphId env a \<notin> ?ids" for a
  proof -
    from that a have 1: "loaded ?s' (toGraphId env a) = None"
      by blast
    with that(1) have 2: "a \<in> set (missing env requested (loaded ?s'))"
      by (simp add: missing_def)
    then have 3: "missing env requested (loaded ?s') \<noteq> []"
      by auto
    have 4: "\<not> fetching ?s'" and 5: "sent ?s' = sent s"
      by (simp_all add: s')
    from 3 4 have "sent (effect env requested ?s') = sent ?s' @ [missing env requested (loaded ?s')]"
      by (simp add: effect_issue)
    with 1 2 5 show ?thesis by simp
  qed
  have c: "loaded s' (toGraphId env a) = None"
    if "loaded s (toGraphId env a) = None" and "run env s evs = Some s'"
      and "\<forall>j ns. Resolved j ns \<in> set evs \<longrightarrow> toGraphId env a \<notin> (\<lambda>n. toGraphId env (node_assetKey n)) ` set ns"
    for a evs s'
    using that(2) that(1) that(3) by (rule absent_run)
  from a b c show ?thesis by blast
qed

theorem unreturned_key_stays_missing_witness:
  "decodeEntries example_env [node_plain] = Inr [(''/t1'', Map.empty)]
   \<and> dom (loaded (fetch_resolved example_env 0 [node_plain] (effect example_env [key_t1, key_t3] init)))
       = {''/t1''}
   \<and> key_t3 \<in> set [key_t1, key_t3]
   \<and> loaded (effect example_env [key_t1, key_t3] init) (toGraphId example_env key_t3) = None
   \<and> toGraphId example_env key_t3 \<notin> (\<lambda>n. toGraphId example_env (node_assetKey n)) ` set [node_plain]
   \<and> key_t3 \<in> set (missing example_env [key_t1, key_t3]
         (loaded (fetch_resolved example_env 0 [node_plain] (effect example_env [key_t1, key_t3] init))))
   \<and> sent (effect example_env [key_t1, key_t3]
         (fetch_resolved example_env 0 [node_plain] (effect example_env [key_t1, key_t3] init)))
       = [[key_t1, key_t3], [key_t3]]"
proof -
  let ?s = "effect example_env [key_t1, key_t3] init"
  let ?s' = "fetch_resolved example_env 0 [node_plain] ?s"
  have d: "decodeEntries example_env [node_plain] = Inr [(''/t1'', Map.empty)]"
    by (simp add: decode_node_plain example_node_keys example_ids)
  note t = unreturned_key_stays_missing [OF d, of 0 ?s "[key_t1, key_t3]"]
  have s: "?s = \<lparr>loaded = Map.empty, fetching = True, in_flight = [[key_t1, key_t3]],
      sent = [[key_t1, key_t3]], uncaught = []\<rparr>"
    by (simp add: effect_def init_def missing_def Let_def)
  have h1: "key_t3 \<in> set [key_t1, key_t3]"
    by simp
  have h2: "loaded ?s (toGraphId example_env key_t3) = None"
    by (simp add: init_def)
  have h3: "toGraphId example_env key_t3 \<notin> (\<lambda>n. toGraphId example_env (node_assetKey n)) ` set [node_plain]"
    by (simp add: example_node_keys example_ids)
  from t [THEN conjunct1] have 1: "dom (loaded ?s') = {''/t1''}"
    by (simp add: example_node_keys example_ids init_def)
  from t [THEN conjunct2, THEN conjunct1, rule_format, OF h1 conjI [OF h2 h3]]
  have 2: "key_t3 \<in> set (missing example_env [key_t1, key_t3] (loaded ?s'))"
    and 3: "sent (effect example_env [key_t1, key_t3] ?s')
       = sent ?s @ [missing example_env [key_t1, key_t3] (loaded ?s')]"
    by blast+
  have l: "loaded ?s' = setLoaded_updater Map.empty [(''/t1'', Map.empty)]"
    by (simp add: fetch_resolved_success [OF d] init_def)
  have m: "missing example_env [key_t1, key_t3] (loaded ?s') = [key_t3]"
    by (simp add: l missing_def example_ids setLoaded_updater_apply)
  have ss: "sent ?s = [[key_t1, key_t3]]"
    by (simp add: s)
  from 3 have 4: "sent (effect example_env [key_t1, key_t3] ?s') = [[key_t1, key_t3], [key_t3]]"
    unfolding m ss by simp
  from d 1 h1 h2 h3 2 4 show ?thesis by blast
qed

text \<open>
  C2. When the lineage payload of an asset parses, the decoder returns an object. For the
  payload of the specification's example and a consolidated schema that gives column
  \<^verbatim>\<open>a\<close> the type \<^verbatim>\<open>INT\<close>, the result has the one column \<^verbatim>\<open>a\<close>, named \<^verbatim>\<open>a\<close>, of type
  \<^verbatim>\<open>INT\<close>, with the one upstream reference to column \<^verbatim>\<open>x\<close> of the asset with path
  \<^verbatim>\<open>["t1","col_x"]\<close>. In general every column of the result comes from an entry of the
  payload, with one upstream reference per element of the entry, in order, whose path is
  the first inner array of \<^verbatim>\<open>upstream_asset_key\<close>; and a column that the consolidated
  schema does not name has type and description \<^verbatim>\<open>null\<close>.
\<close>

theorem decode_example_and_columns:
  assumes "assetMaterializations n = mat # rest"
    and "find (isCanonicalColumnLineageEntry env) (metadataEntries mat) = Some entry"
    and "jsonString entry = Some text"
    and "JSON_parse env text = Some p"
  shows "(p = [(''a'', [\<lparr>upstream_asset_key = [[''t1'', ''col_x'']], upstream_column_name = ''x''\<rparr>])]
          \<and> schemaParsed (buildConsolidatedColumnSchema env (Some mat) n) ''a'' = Some c
          \<and> col_type c = ''INT'' \<longrightarrow>
          getColumnLineage env n =
            Inr [''a'' \<mapsto>
                 \<lparr>name = ''a'', type = Some ''INT'', description = or_null (col_description c),
                  asOf = Some (timestamp mat),
                  upstream = [\<lparr>assetKey = \<lparr>path = Some [''t1'', ''col_x'']\<rparr>, columnName = ''x''\<rparr>]\<rparr>])
     \<and> (\<exists>decoded. getColumnLineage env n = Inr decoded
          \<and> (\<forall>column col. decoded column = Some col \<longrightarrow>
                (\<exists>m. map_of (rev p) column = Some m
                   \<and> name col = column
                   \<and> length (upstream col) = length m
                   \<and> (\<forall>j < length m.
                         columnName (upstream col ! j) = upstream_column_name (m ! j)
                         \<and> (\<forall>key keys. upstream_asset_key (m ! j) = key # keys \<longrightarrow>
                               path (assetKey (upstream col ! j)) = Some key))
                   \<and> ((\<forall>cols. buildConsolidatedColumnSchema env (Some mat) n = Some cols \<longrightarrow>
                          column \<notin> col_name ` set cols) \<longrightarrow>
                        type col = None \<and> description col = None))))"
proof -
  let ?S = "schemaParsed (buildConsolidatedColumnSchema env (Some mat) n)"
  let ?d = "fromEntries (map (localColumn ?S (Some mat)) p)"
  have d: "getColumnLineage env n = Inr ?d"
    using assms by (rule getColumnLineage_payload)
  have 1: "getColumnLineage env n =
            Inr [''a'' \<mapsto>
                 \<lparr>name = ''a'', type = Some ''INT'', description = or_null (col_description c),
                  asOf = Some (timestamp mat),
                  upstream = [\<lparr>assetKey = \<lparr>path = Some [''t1'', ''col_x'']\<rparr>, columnName = ''x''\<rparr>]\<rparr>]"
    if "p = [(''a'', [\<lparr>upstream_asset_key = [[''t1'', ''col_x'']], upstream_column_name = ''x''\<rparr>])]"
      and "?S ''a'' = Some c" and "col_type c = ''INT''"
    using that by (simp add: d fromEntries_def localColumn_def localUpstream_def index0_def or_null_def)
  have 2: "\<exists>m. map_of (rev p) column = Some m
                   \<and> name col = column
                   \<and> length (upstream col) = length m
                   \<and> (\<forall>j < length m.
                         columnName (upstream col ! j) = upstream_column_name (m ! j)
                         \<and> (\<forall>key keys. upstream_asset_key (m ! j) = key # keys \<longrightarrow>
                               path (assetKey (upstream col ! j)) = Some key))
                   \<and> ((\<forall>cols. buildConsolidatedColumnSchema env (Some mat) n = Some cols \<longrightarrow>
                          column \<notin> col_name ` set cols) \<longrightarrow>
                        type col = None \<and> description col = None)"
    if "?d column = Some col" for column col
  proof -
    from decoded_column [OF assms d that] obtain m
      where m: "map_of (rev p) column = Some m" and col: "col = snd (localColumn ?S (Some mat) (column, m))"
      by blast
    have a: "name col = column" "length (upstream col) = length m"
      by (simp_all add: col localColumn_snd)
    have b: "columnName (upstream col ! j) = upstream_column_name (m ! j)
           \<and> (\<forall>key keys. upstream_asset_key (m ! j) = key # keys \<longrightarrow>
                 path (assetKey (upstream col ! j)) = Some key)" if "j < length m" for j
      using that by (simp add: col localColumn_snd localUpstream_def index0_def)
    have c: "type col = None \<and> description col = None"
      if "\<forall>cols. buildConsolidatedColumnSchema env (Some mat) n = Some cols \<longrightarrow> column \<notin> col_name ` set cols"
      using schemaParsed_absent [OF that] by (simp add: col localColumn_snd or_null_def)
    from m a b c show ?thesis by blast
  qed
  from d 1 2 show ?thesis by blast
qed

theorem decode_example_and_columns_witness:
  "getColumnLineage example_env node_lineage =
     Inr [''a'' \<mapsto>
          \<lparr>name = ''a'', type = Some ''INT'', description = None, asOf = Some ''1700000000000'',
           upstream = [\<lparr>assetKey = \<lparr>path = Some [''t1'', ''col_x'']\<rparr>, columnName = ''x''\<rparr>]\<rparr>]
   \<and> (\<exists>decoded col. getColumnLineage example_env node_unwrapped = Inr decoded
        \<and> decoded ''a'' = Some col
        \<and> buildConsolidatedColumnSchema example_env
             (Some (materialized ''1700000000002'' unwrapped_text)) node_unwrapped = None
        \<and> name col = ''a'' \<and> type col = None \<and> description col = None
        \<and> length (upstream col) = 1 \<and> columnName (upstream col ! 0) = ''x'')"
proof -
  let ?c = "\<lparr>col_name = ''a'', col_type = ''INT'', col_description = None\<rparr>"
  note t = decode_example_and_columns [OF example_materializations(1) example_find
      example_jsonString example_parse_simps(1), of ?c]
  have "example_payload = [(''a'', [\<lparr>upstream_asset_key = [[''t1'', ''col_x'']], upstream_column_name = ''x''\<rparr>])]
      \<and> schemaParsed (buildConsolidatedColumnSchema example_env
            (Some (materialized ''1700000000000'' example_text)) node_lineage) ''a'' = Some ?c
      \<and> col_type ?c = ''INT''"
    by (simp add: example_payload_def example_schema_lineage example_schemaParsed_a)
  with t have "getColumnLineage example_env node_lineage =
     Inr [''a'' \<mapsto>
          \<lparr>name = ''a'', type = Some ''INT'', description = or_null (col_description ?c),
           asOf = Some (timestamp (materialized ''1700000000000'' example_text)),
           upstream = [\<lparr>assetKey = \<lparr>path = Some [''t1'', ''col_x'']\<rparr>, columnName = ''x''\<rparr>]\<rparr>]"
    by blast
  then have 1: "getColumnLineage example_env node_lineage =
     Inr [''a'' \<mapsto>
          \<lparr>name = ''a'', type = Some ''INT'', description = None, asOf = Some ''1700000000000'',
           upstream = [\<lparr>assetKey = \<lparr>path = Some [''t1'', ''col_x'']\<rparr>, columnName = ''x''\<rparr>]\<rparr>]"
    by (simp add: or_null_def materialized_def)
  note u = decode_example_and_columns [OF example_materializations(2) example_find
      example_jsonString example_parse_simps(2), THEN conjunct2]
  then obtain decoded where d: "getColumnLineage example_env node_unwrapped = Inr decoded"
    and a: "\<And>column col. decoded column = Some col \<Longrightarrow>
                (\<exists>m. map_of (rev unwrapped_payload) column = Some m
                   \<and> name col = column
                   \<and> length (upstream col) = length m
                   \<and> (\<forall>j < length m.
                         columnName (upstream col ! j) = upstream_column_name (m ! j)
                         \<and> (\<forall>key keys. upstream_asset_key (m ! j) = key # keys \<longrightarrow>
                               path (assetKey (upstream col ! j)) = Some key))
                   \<and> ((\<forall>cols. buildConsolidatedColumnSchema example_env
                           (Some (materialized ''1700000000002'' unwrapped_text)) node_unwrapped = Some cols \<longrightarrow>
                          column \<notin> col_name ` set cols) \<longrightarrow>
                        type col = None \<and> description col = None))"
    by blast
  from d decode_node_unwrapped have "decoded = unwrapped_local"
    by simp
  then obtain col where c: "decoded ''a'' = Some col"
    by (simp add: unwrapped_local_def)
  from a [OF c] obtain m where m: "map_of (rev unwrapped_payload) ''a'' = Some m"
    and 2: "name col = ''a''" "length (upstream col) = length m"
    and 3: "\<forall>j < length m. columnName (upstream col ! j) = upstream_column_name (m ! j)"
    and 4: "(\<forall>cols. buildConsolidatedColumnSchema example_env
                           (Some (materialized ''1700000000002'' unwrapped_text)) node_unwrapped = Some cols \<longrightarrow>
                          ''a'' \<notin> col_name ` set cols) \<longrightarrow>
                        type col = None \<and> description col = None"
    by blast
  from m have m': "m = [\<lparr>upstream_asset_key = [], upstream_column_name = ''x''\<rparr>]"
    by (simp add: unwrapped_payload_def)
  from 4 have 5: "type col = None \<and> description col = None"
    by (simp add: example_schema_unwrapped)
  from 2 3 have 6: "length (upstream col) = 1 \<and> columnName (upstream col ! 0) = ''x''"
    by (simp add: m')
  from 1 d c example_schema_unwrapped 2(1) 5 6 show ?thesis
    by blast
qed

text \<open>
  C10. The decoder reads \<^verbatim>\<open>upstream_asset_key[0]\<close> without a guard. When the lineage payload
  parses, the decoder returns an object whatever the upstream keys are: a reference whose
  outer array has an element gets that element as its path, and a reference whose outer
  array is empty gets the path \<^verbatim>\<open>undefined\<close>; no exception is raised.
\<close>

theorem unguarded_index0:
  assumes "assetMaterializations n = mat # rest"
    and "find (isCanonicalColumnLineageEntry env) (metadataEntries mat) = Some entry"
    and "jsonString entry = Some text"
    and "JSON_parse env text = Some p"
  shows "\<exists>decoded. getColumnLineage env n = Inr decoded
     \<and> (\<forall>column col. decoded column = Some col \<longrightarrow>
           (\<exists>m. map_of (rev p) column = Some m
              \<and> length (upstream col) = length m
              \<and> (\<forall>j < length m.
                    (upstream_asset_key (m ! j) \<noteq> [] \<longrightarrow>
                       path (assetKey (upstream col ! j)) = Some (hd (upstream_asset_key (m ! j))))
                  \<and> (upstream_asset_key (m ! j) = [] \<longrightarrow>
                       path (assetKey (upstream col ! j)) = None))))"
proof -
  let ?S = "schemaParsed (buildConsolidatedColumnSchema env (Some mat) n)"
  let ?d = "fromEntries (map (localColumn ?S (Some mat)) p)"
  have d: "getColumnLineage env n = Inr ?d"
    using assms by (rule getColumnLineage_payload)
  have 2: "\<exists>m. map_of (rev p) column = Some m
              \<and> length (upstream col) = length m
              \<and> (\<forall>j < length m.
                    (upstream_asset_key (m ! j) \<noteq> [] \<longrightarrow>
                       path (assetKey (upstream col ! j)) = Some (hd (upstream_asset_key (m ! j))))
                  \<and> (upstream_asset_key (m ! j) = [] \<longrightarrow>
                       path (assetKey (upstream col ! j)) = None))"
    if "?d column = Some col" for column col
  proof -
    from decoded_column [OF assms d that] obtain m
      where m: "map_of (rev p) column = Some m" and col: "col = snd (localColumn ?S (Some mat) (column, m))"
      by blast
    have a: "length (upstream col) = length m"
      by (simp add: col localColumn_snd)
    have b: "(upstream_asset_key (m ! j) \<noteq> [] \<longrightarrow>
                       path (assetKey (upstream col ! j)) = Some (hd (upstream_asset_key (m ! j))))
                  \<and> (upstream_asset_key (m ! j) = [] \<longrightarrow>
                       path (assetKey (upstream col ! j)) = None)" if "j < length m" for j
      using that by (simp add: col localColumn_snd localUpstream_def index0_def split: list.split)
    from m a b show ?thesis by blast
  qed
  from d 2 show ?thesis by blast
qed

theorem unguarded_index0_witness:
  "(\<exists>decoded col m. getColumnLineage example_env node_unwrapped = Inr decoded
      \<and> decoded ''a'' = Some col
      \<and> map_of (rev unwrapped_payload) ''a'' = Some m
      \<and> 0 < length m
      \<and> upstream_asset_key (m ! 0) = []
      \<and> path (assetKey (upstream col ! 0)) = None)
   \<and> (\<exists>decoded col m. getColumnLineage example_env node_lineage = Inr decoded
      \<and> decoded ''a'' = Some col
      \<and> map_of (rev example_payload) ''a'' = Some m
      \<and> 0 < length m
      \<and> upstream_asset_key (m ! 0) \<noteq> []
      \<and> path (assetKey (upstream col ! 0)) = Some [''t1'', ''col_x''])"
proof -
  from unguarded_index0 [OF example_materializations(2) example_find
      example_jsonString example_parse_simps(2)]
  obtain decoded where d: "getColumnLineage example_env node_unwrapped = Inr decoded"
    and a: "\<And>column col. decoded column = Some col \<Longrightarrow>
           (\<exists>m. map_of (rev unwrapped_payload) column = Some m
              \<and> length (upstream col) = length m
              \<and> (\<forall>j < length m.
                    (upstream_asset_key (m ! j) \<noteq> [] \<longrightarrow>
                       path (assetKey (upstream col ! j)) = Some (hd (upstream_asset_key (m ! j))))
                  \<and> (upstream_asset_key (m ! j) = [] \<longrightarrow>
                       path (assetKey (upstream col ! j)) = None)))"
    by blast
  from d decode_node_unwrapped have "decoded = unwrapped_local"
    by simp
  then obtain col where c: "decoded ''a'' = Some col"
    by (simp add: unwrapped_local_def)
  from a [OF c] obtain m where m: "map_of (rev unwrapped_payload) ''a'' = Some m"
    and j: "\<forall>j < length m.
                    (upstream_asset_key (m ! j) \<noteq> [] \<longrightarrow>
                       path (assetKey (upstream col ! j)) = Some (hd (upstream_asset_key (m ! j))))
                  \<and> (upstream_asset_key (m ! j) = [] \<longrightarrow>
                       path (assetKey (upstream col ! j)) = None)"
    by blast
  from m have m': "m = [\<lparr>upstream_asset_key = [], upstream_column_name = ''x''\<rparr>]"
    by (simp add: unwrapped_payload_def)
  then have l: "0 < length m" and e: "upstream_asset_key (m ! 0) = []"
    by simp_all
  from j l e have n: "path (assetKey (upstream col ! 0)) = None"
    by blast
  from unguarded_index0 [OF example_materializations(1) example_find
      example_jsonString example_parse_simps(1)]
  obtain decoded2 where d2: "getColumnLineage example_env node_lineage = Inr decoded2"
    and a2: "\<And>column col. decoded2 column = Some col \<Longrightarrow>
           (\<exists>m. map_of (rev example_payload) column = Some m
              \<and> length (upstream col) = length m
              \<and> (\<forall>j < length m.
                    (upstream_asset_key (m ! j) \<noteq> [] \<longrightarrow>
                       path (assetKey (upstream col ! j)) = Some (hd (upstream_asset_key (m ! j))))
                  \<and> (upstream_asset_key (m ! j) = [] \<longrightarrow>
                       path (assetKey (upstream col ! j)) = None)))"
    by blast
  from d2 decode_node_lineage have "decoded2 = example_local"
    by simp
  then obtain col2 where c2: "decoded2 ''a'' = Some col2"
    by (simp add: example_local_def)
  from a2 [OF c2] obtain m2 where m2: "map_of (rev example_payload) ''a'' = Some m2"
    and j2: "\<forall>j < length m2.
                    (upstream_asset_key (m2 ! j) \<noteq> [] \<longrightarrow>
                       path (assetKey (upstream col2 ! j)) = Some (hd (upstream_asset_key (m2 ! j))))
                  \<and> (upstream_asset_key (m2 ! j) = [] \<longrightarrow>
                       path (assetKey (upstream col2 ! j)) = None)"
    by blast
  from m2 have m2': "m2 = [\<lparr>upstream_asset_key = [[''t1'', ''col_x'']], upstream_column_name = ''x''\<rparr>]"
    by (simp add: example_payload_def)
  then have l2: "0 < length m2" and e2: "upstream_asset_key (m2 ! 0) \<noteq> []"
    and h2: "hd (upstream_asset_key (m2 ! 0)) = [''t1'', ''col_x'']"
    by simp_all
  from j2 l2 e2 have "path (assetKey (upstream col2 ! 0)) = Some (hd (upstream_asset_key (m2 ! 0)))"
    by blast
  with h2 have n2: "path (assetKey (upstream col2 ! 0)) = Some [''t1'', ''col_x'']"
    by simp
  from d c m l e n d2 c2 m2 l2 e2 n2 show ?thesis
    by blast
qed

lemma fetching_effect: "missing env ks (loaded s) \<noteq> [] \<Longrightarrow> fetching (effect env ks s)"
  by (simp add: effect_def Let_def)

text \<open>
  C1. When the decoder throws for a node of the response, the continuation has already
  cleared \<^verbatim>\<open>fetching.current\<close> and the cache stays as it was. When the query rejects, the
  cache stays as it was too, but \<^verbatim>\<open>fetching.current\<close> keeps the value the effect gave it:
  after an effect that found a key missing it is set, and every later effect is a no-op.
\<close>

theorem rejected_query_keeps_guard:
  "(decodeEntries env assetNodes = Inl e \<longrightarrow>
      \<not> fetching (fetch_resolved env i assetNodes s)
      \<and> loaded (fetch_resolved env i assetNodes s) = loaded s)
   \<and> loaded (fetch_rejected i s) = loaded s
   \<and> fetching (fetch_rejected i s) = fetching s
   \<and> (missing env ks (loaded s) \<noteq> [] \<longrightarrow>
        fetching (fetch_rejected i (effect env ks s))
      \<and> (\<forall>ks'. effect env ks' (fetch_rejected i (effect env ks s)) = fetch_rejected i (effect env ks s)))"
proof -
  have 1: "\<not> fetching (fetch_resolved env i assetNodes s)
      \<and> loaded (fetch_resolved env i assetNodes s) = loaded s"
    if "decodeEntries env assetNodes = Inl e"
    by (simp add: fetch_resolved_failure [OF that])
  have 2: "loaded (fetch_rejected i s) = loaded s" "fetching (fetch_rejected i s) = fetching s"
    by (simp_all add: fetch_rejected_def)
  have 3: "fetching (fetch_rejected i (effect env ks s))
      \<and> (\<forall>ks'. effect env ks' (fetch_rejected i (effect env ks s)) = fetch_rejected i (effect env ks s))"
    if "missing env ks (loaded s) \<noteq> []"
  proof -
    from fetching_effect [OF that] have f: "fetching (fetch_rejected i (effect env ks s))"
      by (simp add: fetch_rejected_def)
    then have "effect env ks' (fetch_rejected i (effect env ks s)) = fetch_rejected i (effect env ks s)" for ks'
      by (simp add: effect_noop)
    with f show ?thesis by blast
  qed
  from 1 2 3 show ?thesis by blast
qed

theorem rejected_query_keeps_guard_witness:
  "missing example_env [key_t1] (loaded init) = [key_t1]
   \<and> run example_env init [Effect [key_t1], Rejected 0, Effect [key_t1]]
       = Some (fetch_rejected 0 (effect example_env [key_t1] init))
   \<and> fetching (fetch_rejected 0 (effect example_env [key_t1] init))
   \<and> loaded (fetch_rejected 0 (effect example_env [key_t1] init)) = Map.empty
   \<and> in_flight (fetch_rejected 0 (effect example_env [key_t1] init)) = []
   \<and> sent (fetch_rejected 0 (effect example_env [key_t1] init)) = [[key_t1]]
   \<and> decodeEntries example_env [node_plain, node_malformed] = Inl SyntaxError
   \<and> \<not> fetching (fetch_resolved example_env 0 [node_plain, node_malformed]
                   (effect example_env [key_t1, key_t3] init))
   \<and> loaded (fetch_resolved example_env 0 [node_plain, node_malformed]
                   (effect example_env [key_t1, key_t3] init)) = Map.empty"
proof -
  have m: "missing example_env [key_t1] (loaded init) = [key_t1]"
    by (simp add: missing_def init_def)
  then have m': "missing example_env [key_t1] (loaded init) \<noteq> []"
    by simp
  note t = rejected_query_keeps_guard [where env = example_env and i = 0 and ks = "[key_t1]" and s = init,
      THEN conjunct2, THEN conjunct2, THEN conjunct2, rule_format, OF m']
  from t have f: "fetching (fetch_rejected 0 (effect example_env [key_t1] init))"
    and n: "effect example_env [key_t1] (fetch_rejected 0 (effect example_env [key_t1] init))
      = fetch_rejected 0 (effect example_env [key_t1] init)"
    by blast+
  have s: "effect example_env [key_t1] init = \<lparr>loaded = Map.empty, fetching = True,
      in_flight = [[key_t1]], sent = [[key_t1]], uncaught = []\<rparr>"
    by (simp add: effect_def m Let_def) (simp add: init_def)
  have i: "0 < length (in_flight (effect example_env [key_t1] init))"
    by (simp add: s)
  have r: "run example_env init [Effect [key_t1], Rejected 0, Effect [key_t1]]
       = Some (fetch_rejected 0 (effect example_env [key_t1] init))"
    using i n by simp
  have l: "loaded (fetch_rejected 0 (effect example_env [key_t1] init)) = Map.empty"
    by (simp add: init_def)
  have q: "in_flight (fetch_rejected 0 (effect example_env [key_t1] init)) = []"
    "sent (fetch_rejected 0 (effect example_env [key_t1] init)) = [[key_t1]]"
    by (simp_all add: s fetch_rejected_def settle_def)
  have d: "decodeEntries example_env [node_plain, node_malformed] = Inl SyntaxError"
    by (simp add: decode_node_plain decode_node_malformed)
  from rejected_query_keeps_guard [where env = example_env
      and assetNodes = "[node_plain, node_malformed]" and e = SyntaxError and i = 0
      and s = "effect example_env [key_t1, key_t3] init", THEN conjunct1, rule_format, OF d]
  have g: "\<not> fetching (fetch_resolved example_env 0 [node_plain, node_malformed]
                   (effect example_env [key_t1, key_t3] init))"
    and k: "loaded (fetch_resolved example_env 0 [node_plain, node_malformed]
                   (effect example_env [key_t1, key_t3] init)) = Map.empty"
    by (simp_all add: init_def)
  from m r f l q d g k show ?thesis by blast
qed

end
